theory Spec2Isabelle
  imports Main "HOL-Library.Word"
begin

section \<open>The Kinetic protocol data unit (src/kinetic/Kinetic.js)\<close>

text \<open>
  The class \<open>Kinetic\<close> builds, frames and parses the protocol data units of the
  Kinetic key-value protocol. It rests on three libraries that are not part of the
  repository: Node's \<open>Buffer\<close>, \<open>protobufjs\<close> (the structured encoding of the
  envelope and of the command) and \<open>crypto\<close> (HMAC-SHA1). The buffer operations are
  modelled below as Node documents them, with their range checks; the encoder, the
  decoder and the keyed hash are parameters of the model (record \<open>lib\<close>).

  A JavaScript exception is a value: every operation that can throw returns
  \<open>js_error + 'a\<close>, and the methods that change the instance return the instance
  they leave behind as the second component.
\<close>

subsection \<open>Buffers\<close>

type_synonym byte = "8 word"
type_synonym buffer = "byte list"

datatype js_error = RangeError | TypeError

text \<open>\<open>buf[i]\<close>: a byte inside the buffer, \<open>undefined\<close> outside.\<close>

definition buf_at :: "buffer \<Rightarrow> nat \<Rightarrow> byte option" where
  "buf_at buf i = (if i < length buf then Some (buf ! i) else None)"

text \<open>
  \<open>buf.readInt8(offset)\<close> and \<open>buf.readInt32BE(offset)\<close> with \<open>noAssert\<close> unset:
  Node checks \<open>offset + width \<le> buf.length\<close> and throws a RangeError otherwise.
  The value read is the two's complement reading of the bytes, most significant first.
\<close>

definition readInt8 :: "buffer \<Rightarrow> nat \<Rightarrow> js_error + int" where
  "readInt8 buf off =
     (if length buf < off + 1 then Inl RangeError else Inr (sint (buf ! off)))"

definition readInt32BE :: "buffer \<Rightarrow> nat \<Rightarrow> js_error + int" where
  "readInt32BE buf off =
     (if length buf < off + 4 then Inl RangeError
      else let u = uint (buf ! off) * 2 ^ 24 + uint (buf ! (off + 1)) * 2 ^ 16
                 + uint (buf ! (off + 2)) * 2 ^ 8 + uint (buf ! (off + 3))
           in Inr (if 2 ^ 31 \<le> u then u - 2 ^ 32 else u))"

text \<open>
  \<open>buf.writeInt8(v, 0)\<close> on a fresh one-byte region and \<open>buf.writeInt32BE(v, 0)\<close>
  on a fresh four-byte region: the bytes written. Node throws a TypeError when the
  value is outside the signed range of the width.
\<close>

definition writeInt8 :: "int \<Rightarrow> js_error + buffer" where
  "writeInt8 v =
     (if v < - (2 ^ 7) \<or> 2 ^ 7 - 1 < v then Inl TypeError else Inr [word_of_int v])"

definition writeInt32BE :: "int \<Rightarrow> js_error + buffer" where
  "writeInt32BE v =
     (if v < - (2 ^ 31) \<or> 2 ^ 31 - 1 < v then Inl TypeError
      else Inr [word_of_int (v div 2 ^ 24), word_of_int (v div 2 ^ 16),
                word_of_int (v div 2 ^ 8), word_of_int v])"

text \<open>
  \<open>buf.slice(start, end)\<close>: a negative index counts from the end of the buffer, both
  indices are clamped to the buffer, and an end before the start gives the empty
  buffer. A slice never reads outside the buffer.
\<close>

definition buffer_slice :: "buffer \<Rightarrow> int \<Rightarrow> int \<Rightarrow> buffer" where
  "buffer_slice buf start fin =
     (let len = int (length buf);
          s = (if start < 0 then max (start + len) 0 else min start len);
          e = (if fin < 0 then max (fin + len) 0 else min fin len)
      in if e < s then [] else take (nat (e - s)) (drop (nat s) buf))"

subsection \<open>Comparing two buffers\<close>

text \<open>
  \<^verbatim>\<open>
  diff(buf0, buf1) {
      if (buf0.length !== buf1.length) { return false; }
      for (let i = 0; i <= buf0.length; i++) {
          if (buf0[i] !== buf1[i]) return false;
      }
      return true;
  }
  \<close>
  The loop runs to \<open>i = buf0.length\<close> included, where both reads are \<open>undefined\<close>.
\<close>

function diff_loop :: "buffer \<Rightarrow> buffer \<Rightarrow> nat \<Rightarrow> bool" where
  "diff_loop buf0 buf1 i =
     (if i \<le> length buf0
      then (if buf_at buf0 i \<noteq> buf_at buf1 i then False else diff_loop buf0 buf1 (i + 1))
      else True)"
  by pat_completeness auto
termination
  by (relation "measure (\<lambda>(buf0, buf1, i). length buf0 + 1 - i)") auto

declare diff_loop.simps [simp del]

definition diff :: "buffer \<Rightarrow> buffer \<Rightarrow> bool" where
  "diff buf0 buf1 = (if length buf0 \<noteq> length buf1 then False else diff_loop buf0 buf1 0)"

subsection \<open>The protocol messages\<close>

text \<open>
  Modelled from the spec: the schema \<open>kinetic.proto\<close> that \<open>Kinetic.js\<close> loads at run
  time is not among the sources. The records below hold the fields that the data model
  of the specification lists and that the builders and accessors of \<open>Kinetic.js\<close>
  name. The builders leave fields out freely, so every field can be unset; a field
  that is not set reads as \<open>null\<close>, here \<open>None\<close>, and reading a property of
  \<open>null\<close> or \<open>undefined\<close> throws a TypeError. Enumeration values are kept by
  their names, as the builders write them; the repeated field \<open>types\<close> is a list.
\<close>

record HMACauth =
  identity :: "int option"
  hmac :: "buffer option"

record Message =
  authType :: "int option"
  hmacAuth :: "HMACauth option"
  commandBytes :: "buffer option"

record Header =
  messageType :: "string option"
  connectionID :: "int option"
  sequence :: "int option"
  clusterVersion :: "int option"
  ackSequence :: "int option"

record KeyValue =
  key :: "buffer option"
  newVersion :: "buffer option"
  dbVersion :: "buffer option"
  synchronization :: "string option"

record GetLog =
  types :: "int list"
  messages :: "buffer option"

record Setup =
  newClusterVersion :: "int option"

record Body =
  keyValue :: "KeyValue option"
  getLogBody :: "GetLog option"
  setupBody :: "Setup option"

record Status =
  code :: "int option"
  detailedMessage :: "buffer option"

record Command =
  header :: "Header option"
  body :: "Body option"
  status :: "Status option"

text \<open>What \<open>this._message\<close> can hold: a command, or the envelope around one.\<close>

datatype protobuf = PbCommand Command | PbMessage Message

subsection \<open>The libraries\<close>

text \<open>
  \<open>decode\<close> of protobufjs returns the structure, or throws; the exception may carry
  what was decoded so far in its property \<open>decoded\<close>.
\<close>

datatype 'a decoded = Decoded 'a | DecodeFault "'a option"

text \<open>
  \<open>encodeMessage\<close> and \<open>encodeCommand\<close> are \<open>toBuffer()\<close> of an envelope and of a
  command, \<open>decodeMessage\<close> and \<open>decodeCommand\<close> are \<open>Message.decode\<close> and
  \<open>Command.decode\<close> (the latter is handed \<open>commandBytes\<close> as it stands, set or
  not), and \<open>createHmac alg secret data\<close> is
  \<open>crypto.createHmac(alg, secret).update(data).digest()\<close>.
\<close>

record lib =
  encodeMessage :: "Message \<Rightarrow> buffer"
  decodeMessage :: "buffer \<Rightarrow> Message decoded"
  encodeCommand :: "Command \<Rightarrow> buffer"
  decodeCommand :: "buffer option \<Rightarrow> Command decoded"
  createHmac :: "string \<Rightarrow> string \<Rightarrow> buffer \<Rightarrow> buffer"

subsection \<open>The instance\<close>

text \<open>
  The fields a \<open>Kinetic\<close> instance changes after its construction: \<open>_message\<close>,
  \<open>_chunk\<close>, \<open>_hmac\<close> and \<open>_cmd\<close>. A fresh instance has none of them set. The
  field \<open>_version\<close> is assigned once, in the constructor, to the constant \<open>VERSION\<close>.
\<close>

record Kinetic =
  k_message :: "protobuf option"
  k_chunk :: "buffer option"
  k_hmac :: "buffer option"
  k_cmd :: "Message option"

definition newKinetic :: Kinetic where
  "newKinetic = \<lparr>k_message = None, k_chunk = None, k_hmac = None, k_cmd = None\<rparr>"

definition VERSION :: int where
  "VERSION = 0x46"

text \<open>The entries of \<open>this.errors\<close> that \<open>send\<close> and \<open>parse\<close> return.\<close>

definition SUCCESS :: int where "SUCCESS = 1"
definition HMAC_FAILURE :: int where "HMAC_FAILURE = 2"
definition VERSION_FAILURE :: int where "VERSION_FAILURE = 4"
definition INTERNAL_ERROR :: int where "INTERNAL_ERROR = 5"
definition DATA_ERROR :: int where "DATA_ERROR = 11"

definition setProtobuf :: "Kinetic \<Rightarrow> protobuf \<Rightarrow> Kinetic" where
  "setProtobuf st pbMessage = st\<lparr>k_message := Some pbMessage\<rparr>"

definition setChunk :: "Kinetic \<Rightarrow> buffer \<Rightarrow> Kinetic" where
  "setChunk st chunk = st\<lparr>k_chunk := Some chunk\<rparr>"

definition setHMAC :: "lib \<Rightarrow> Kinetic \<Rightarrow> buffer \<Rightarrow> Kinetic" where
  "setHMAC L st integrity = st\<lparr>k_hmac := Some (createHmac L ''sha1'' ''asdfasdf'' integrity)\<rparr>"

text \<open>
  \<open>getSlice(obj)\<close> is \<open>obj.buffer.slice(obj.offset, obj.limit)\<close>: the bytes of a
  bytes field that is set, a TypeError on one that is not.
\<close>

definition getSlice :: "buffer option \<Rightarrow> js_error + buffer" where
  "getSlice obj = (case obj of None \<Rightarrow> Inl TypeError | Some b \<Rightarrow> Inr b)"

definition getVersion :: int where
  "getVersion = VERSION"

definition getProtobuf :: "Kinetic \<Rightarrow> protobuf option" where
  "getProtobuf st = k_message st"

definition toBuffer :: "lib \<Rightarrow> protobuf \<Rightarrow> buffer" where
  "toBuffer L pb = (case pb of PbCommand c \<Rightarrow> encodeCommand L c | PbMessage m \<Rightarrow> encodeMessage L m)"

text \<open>
  \<open>getProtobufSize()\<close> is \<open>this._message.calculate()\<close>, the byte length of the
  encoding of \<open>this._message\<close>.
\<close>

definition getProtobufSize :: "lib \<Rightarrow> Kinetic \<Rightarrow> js_error + int" where
  "getProtobufSize L st =
     (case k_message st of None \<Rightarrow> Inl TypeError | Some pb \<Rightarrow> Inr (int (length (toBuffer L pb))))"

definition getChunk :: "Kinetic \<Rightarrow> buffer option" where
  "getChunk st = k_chunk st"

definition getChunkSize :: "Kinetic \<Rightarrow> int" where
  "getChunkSize st = (case k_chunk st of None \<Rightarrow> 0 | Some chunk \<Rightarrow> int (length chunk))"

definition getHMAC :: "Kinetic \<Rightarrow> buffer option" where
  "getHMAC st = k_hmac st"

subsection \<open>Integrity\<close>

text \<open>\<open>hmacIntegrity\<close> returns \<open>true\<close> or the number \<open>errors.HMAC_FAILURE\<close>.\<close>

datatype js_value = JsTrue | JsNumber int

definition hmacIntegrity :: "lib \<Rightarrow> Kinetic \<Rightarrow> buffer option \<Rightarrow> (js_error + js_value) \<times> Kinetic" where
  "hmacIntegrity L st h =
     (if h = None \<or> getHMAC st = None then (Inr (JsNumber HMAC_FAILURE), st)
      else case getProtobufSize L st of
          Inl e \<Rightarrow> (Inl e, st)
        | Inr pbSize \<Rightarrow>
            (case writeInt32BE pbSize of
               Inl e \<Rightarrow> (Inl e, st)
             | Inr buf \<Rightarrow>
                 (case k_message st of
                    None \<Rightarrow> (Inl TypeError, st)
                  | Some pb \<Rightarrow>
                      let st1 = setHMAC L st (buf @ toBuffer L pb) in
                      (case (h, getHMAC st1) of
                         (Some received, Some computed) \<Rightarrow>
                           if diff received computed = False
                           then (Inr (JsNumber HMAC_FAILURE), st1)
                           else (Inr JsTrue, st1)
                       | _ \<Rightarrow> (Inl TypeError, st1)))))"

subsection \<open>Building messages\<close>

text \<open>
  \<open>setMessage(command)\<close> stores the command, computes the digest over the four-byte
  length of its encoding followed by the encoding, and replaces the stored command by
  the envelope that carries the digest and the encoding.
\<close>

definition setMessage :: "lib \<Rightarrow> Kinetic \<Rightarrow> Command \<Rightarrow> (js_error + unit) \<times> Kinetic" where
  "setMessage L st command =
     (let st1 = st\<lparr>k_message := Some (PbCommand command)\<rparr> in
      case getProtobufSize L st1 of
        Inl e \<Rightarrow> (Inl e, st1)
      | Inr pbSize \<Rightarrow>
          (case writeInt32BE pbSize of
             Inl e \<Rightarrow> (Inl e, st1)
           | Inr buf \<Rightarrow>
               let st2 = setHMAC L st1 (buf @ toBuffer L (PbCommand command)) in
               (Inr (), setProtobuf st2 (PbMessage
                  \<lparr>authType = Some 1,
                   hmacAuth = Some \<lparr>identity = Some 1, hmac = getHMAC st2\<rparr>,
                   commandBytes = Some (toBuffer L (PbCommand command))\<rparr>))))"



definition getLog ::
  "lib \<Rightarrow> int \<Rightarrow> Kinetic \<Rightarrow> int option \<Rightarrow> int list \<Rightarrow> int option \<Rightarrow> (js_error + unit) \<times> Kinetic" where
  "getLog L connectionID' st incrementTCP types' clusterVersion' =
     setMessage L st
       \<lparr>header = Some \<lparr>messageType = Some ''GETLOG'', connectionID = Some connectionID',
                       sequence = incrementTCP, clusterVersion = clusterVersion',
                       ackSequence = None\<rparr>,
        body = Some \<lparr>keyValue = None,
                     getLogBody = Some \<lparr>types = types', messages = None\<rparr>,
                     setupBody = None\<rparr>,
        status = None\<rparr>"


definition flush ::
  "lib \<Rightarrow> int \<Rightarrow> Kinetic \<Rightarrow> int option \<Rightarrow> int option \<Rightarrow> (js_error + unit) \<times> Kinetic" where
  "flush L connectionID' st incrementTCP clusterVersion' =
     setMessage L st
       \<lparr>header = Some \<lparr>messageType = Some ''FLUSHALLDATA'', connectionID = Some connectionID',
                       sequence = incrementTCP, clusterVersion = clusterVersion',
                       ackSequence = None\<rparr>,
        body = Some \<lparr>keyValue = None, getLogBody = None, setupBody = None\<rparr>,
        status = None\<rparr>"


definition setClusterVersion ::
  "lib \<Rightarrow> int \<Rightarrow> Kinetic \<Rightarrow> int option \<Rightarrow> int option \<Rightarrow> int option \<Rightarrow> (js_error + unit) \<times> Kinetic" where
  "setClusterVersion L connectionID' st incrementTCP clusterVersion' oldClusterVersion =
     setMessage L st
       \<lparr>header = Some \<lparr>messageType = Some ''SETUP'', connectionID = Some connectionID',
                       sequence = incrementTCP, clusterVersion = oldClusterVersion,
                       ackSequence = None\<rparr>,
        body = Some \<lparr>keyValue = None, getLogBody = None,
                     setupBody = Some \<lparr>newClusterVersion = clusterVersion'\<rparr>\<rparr>,
        status = None\<rparr>"


definition noOp ::
  "lib \<Rightarrow> int \<Rightarrow> Kinetic \<Rightarrow> int option \<Rightarrow> int option \<Rightarrow> (js_error + unit) \<times> Kinetic" where
  "noOp L connectionID' st incrementTCP clusterVersion' =
     setMessage L st
       \<lparr>header = Some \<lparr>messageType = Some ''NOOP'', connectionID = Some connectionID',
                       sequence = incrementTCP, clusterVersion = clusterVersion',
                       ackSequence = None\<rparr>,
        body = Some \<lparr>keyValue = None, getLogBody = None, setupBody = None\<rparr>,
        status = None\<rparr>"


definition put ::
  "lib \<Rightarrow> int \<Rightarrow> Kinetic \<Rightarrow> buffer option \<Rightarrow> int option \<Rightarrow> buffer option \<Rightarrow> buffer option \<Rightarrow> int option \<Rightarrow> (js_error + unit) \<times> Kinetic" where
  "put L connectionID' st key' incrementTCP dbVersion' newVersion' clusterVersion' =
     setMessage L st
       \<lparr>header = Some \<lparr>messageType = Some ''PUT'', connectionID = Some connectionID',
                       sequence = incrementTCP, clusterVersion = clusterVersion',
                       ackSequence = None\<rparr>,
        body = Some \<lparr>keyValue = Some \<lparr>key = key', newVersion = newVersion',
                                        dbVersion = dbVersion',
                                        synchronization = Some ''WRITETHROUGH''\<rparr>,
                     getLogBody = None, setupBody = None\<rparr>,
        status = None\<rparr>"


definition get ::
  "lib \<Rightarrow> int \<Rightarrow> Kinetic \<Rightarrow> buffer option \<Rightarrow> int option \<Rightarrow> int option \<Rightarrow> (js_error + unit) \<times> Kinetic" where
  "get L connectionID' st key' incrementTCP clusterVersion' =
     setMessage L st
       \<lparr>header = Some \<lparr>messageType = Some ''GET'', connectionID = Some connectionID',
                       sequence = incrementTCP, clusterVersion = clusterVersion',
                       ackSequence = None\<rparr>,
        body = Some \<lparr>keyValue = Some \<lparr>key = key', newVersion = None,
                                        dbVersion = None,
                                        synchronization = None\<rparr>,
                     getLogBody = None, setupBody = None\<rparr>,
        status = None\<rparr>"


definition delete ::
  "lib \<Rightarrow> int \<Rightarrow> Kinetic \<Rightarrow> buffer option \<Rightarrow> int option \<Rightarrow> int option \<Rightarrow> buffer option \<Rightarrow> (js_error + unit) \<times> Kinetic" where
  "delete L connectionID' st key' incrementTCP clusterVersion' dbVersion' =
     setMessage L st
       \<lparr>header = Some \<lparr>messageType = Some ''DELETE'', connectionID = Some connectionID',
                       sequence = incrementTCP, clusterVersion = clusterVersion',
                       ackSequence = None\<rparr>,
        body = Some \<lparr>keyValue = Some \<lparr>key = key', newVersion = None,
                                        dbVersion = dbVersion',
                                        synchronization = Some ''WRITETHROUGH''\<rparr>,
                     getLogBody = None, setupBody = None\<rparr>,
        status = None\<rparr>"


subsection \<open>Framing: send\<close>

text \<open>
  The socket is the stream of bytes written to it so far: \<open>sock.write(b)\<close> appends
  \<open>b\<close>. \<open>send\<close> writes the nine-byte header, the encoding of \<open>this._message\<close>
  and, when a chunk is set, the chunk.
\<close>

definition send :: "lib \<Rightarrow> Kinetic \<Rightarrow> buffer \<Rightarrow> (js_error + int) \<times> buffer" where
  "send L st sock =
     (case writeInt8 getVersion of
        Inl e \<Rightarrow> (Inl e, sock)
      | Inr b0 \<Rightarrow>
     (case getProtobufSize L st of
        Inl e \<Rightarrow> (Inl e, sock)
      | Inr pbSize \<Rightarrow>
     (case writeInt32BE pbSize of
        Inl e \<Rightarrow> (Inl e, sock)
      | Inr b1 \<Rightarrow>
     (case writeInt32BE (getChunkSize st) of
        Inl e \<Rightarrow> (Inl e, sock)
      | Inr b5 \<Rightarrow>
     (let pduHeader = b0 @ b1 @ b5 in
      case k_message st of
        None \<Rightarrow> (Inl TypeError, sock)
      | Some pb \<Rightarrow>
          (case getChunk st of
             Some chunk \<Rightarrow> (Inr SUCCESS, sock @ pduHeader @ toBuffer L pb @ chunk)
           | None \<Rightarrow> (Inr SUCCESS, sock @ pduHeader @ toBuffer L pb)))))))"

subsection \<open>Parsing: parse\<close>

text \<open>
  The \<open>try\<close> block of \<open>parse\<close> with its \<open>catch\<close>, on the envelope region of the
  data. The first component is the code that the \<open>catch\<close> block returns, if it
  returns. An envelope that decodes is stored in \<open>_cmd\<close> before its command bytes are
  decoded; an exception of either decoder that carries a structure has that structure
  stored in \<open>_message\<close>.
\<close>

definition parse_decode :: "lib \<Rightarrow> Kinetic \<Rightarrow> buffer \<Rightarrow> int option \<times> Kinetic" where
  "parse_decode L st envelope =
     (case decodeMessage L envelope of
        DecodeFault None \<Rightarrow> (Some INTERNAL_ERROR, st)
      | DecodeFault (Some partial) \<Rightarrow> (None, setProtobuf st (PbMessage partial))
      | Decoded m \<Rightarrow>
          (let st1 = st\<lparr>k_cmd := Some m\<rparr> in
           case decodeCommand L (commandBytes m) of
             DecodeFault None \<Rightarrow> (Some INTERNAL_ERROR, st1)
           | DecodeFault (Some partial) \<Rightarrow> (None, setProtobuf st1 (PbCommand partial))
           | Decoded c \<Rightarrow> (None, setProtobuf st1 (PbCommand c))))"

text \<open>The statements of \<open>parse\<close> after the \<open>try\<close> block: the chunk and the digest.\<close>

definition parse_validate :: "lib \<Rightarrow> Kinetic \<Rightarrow> buffer \<Rightarrow> int \<Rightarrow> int \<Rightarrow> (js_error + int) \<times> Kinetic" where
  "parse_validate L st data pbMsgLen chunkLen =
     (let st1 = setChunk st (buffer_slice data (pbMsgLen + 9) (chunkLen + pbMsgLen + 9)) in
      if getChunkSize st1 \<noteq> chunkLen then (Inr DATA_ERROR, st1)
      else case k_cmd st1 of
          None \<Rightarrow> (Inl TypeError, st1)
        | Some cmd \<Rightarrow>
            if authType cmd = Some 1
            then (case hmacAuth cmd of
                    None \<Rightarrow> (Inl TypeError, st1)
                  | Some auth \<Rightarrow>
                      (case getSlice (hmac auth) of
                         Inl e \<Rightarrow> (Inl e, st1)
                       | Inr h \<Rightarrow>
                           (case hmacIntegrity L st1 (Some h) of
                              (Inl e, st2) \<Rightarrow> (Inl e, st2)
                            | (Inr r, st2) \<Rightarrow>
                                if r \<noteq> JsTrue then (Inr HMAC_FAILURE, st2)
                                else (Inr SUCCESS, st2))))
            else (Inr SUCCESS, st1))"

definition parse :: "lib \<Rightarrow> Kinetic \<Rightarrow> buffer \<Rightarrow> (js_error + int) \<times> Kinetic" where
  "parse L st data =
     (case readInt8 data 0 of
        Inl e \<Rightarrow> (Inl e, st)
      | Inr version \<Rightarrow>
     (case readInt32BE data 1 of
        Inl e \<Rightarrow> (Inl e, st)
      | Inr pbMsgLen \<Rightarrow>
     (case readInt32BE data 5 of
        Inl e \<Rightarrow> (Inl e, st)
      | Inr chunkLen \<Rightarrow>
          if version \<noteq> getVersion then (Inr VERSION_FAILURE, st)
          else (case parse_decode L st (buffer_slice data 9 (9 + pbMsgLen)) of
                  (Some failure, st1) \<Rightarrow> (Inr failure, st1)
                | (None, st1) \<Rightarrow> parse_validate L st1 data pbMsgLen chunkLen))))"

subsection \<open>A stand-in library for concrete runs\<close>

text \<open>
  To run \<open>send\<close> and \<open>parse\<close> on concrete frames the libraries need concrete
  values. \<open>demoLib\<close> stands in for them on a handful of byte strings: it encodes
  every command as \<open>demoCommandBytes\<close> and every envelope as the single byte 1, its
  keyed hash reverses the data, and its decoders know five inputs: the envelope of
  the PUT request \<open>demoPut\<close> (byte 1), that envelope without its \<open>hmacAuth\<close>
  (byte 2), an envelope whose decoding faults with a partial structure (byte 3), an
  envelope whose command bytes fault with a partial command (byte 4), and everything
  else, which faults with nothing. It is used in concrete instances of the theorems
  only.
\<close>

definition demoKey :: buffer where
  "demoKey = [0x71, 0x77, 0x65, 0x72]"

definition demoChunk :: buffer where
  "demoChunk = [0x4F, 0x4E, 0x20, 0x44, 0x49, 0x54]"

definition demoPut :: Command where
  "demoPut =
     \<lparr>header = Some \<lparr>messageType = Some ''PUT'', connectionID = Some 1456,
                       sequence = Some 0, clusterVersion = Some 0, ackSequence = None\<rparr>,
      body = Some \<lparr>keyValue = Some \<lparr>key = Some demoKey, newVersion = Some [0x31],
                                       dbVersion = None,
                                       synchronization = Some ''WRITETHROUGH''\<rparr>,
                   getLogBody = None, setupBody = None\<rparr>,
      status = None\<rparr>"

definition demoCommandBytes :: buffer where
  "demoCommandBytes = [0x0A, 0x02]"

definition demoDigest :: buffer where
  "demoDigest = [0x02, 0x0A, 0x02, 0x00, 0x00, 0x00]"

definition demoEnvelope :: Message where
  "demoEnvelope =
     \<lparr>authType = Some 1,
      hmacAuth = Some \<lparr>identity = Some 1, hmac = Some demoDigest\<rparr>,
      commandBytes = Some demoCommandBytes\<rparr>"

definition demoLib :: lib where
  "demoLib =
     \<lparr>encodeMessage = (\<lambda>m. [1]),
      decodeMessage = (\<lambda>b.
         if b = [1] then Decoded demoEnvelope
         else if b = [2] then Decoded (demoEnvelope\<lparr>hmacAuth := None\<rparr>)
         else if b = [3] then DecodeFault (Some (demoEnvelope\<lparr>commandBytes := None\<rparr>))
         else if b = [4] then Decoded (demoEnvelope\<lparr>commandBytes := Some [9]\<rparr>)
         else DecodeFault None),
      encodeCommand = (\<lambda>c. demoCommandBytes),
      decodeCommand = (\<lambda>b.
         if b = Some demoCommandBytes then Decoded demoPut
         else if b = Some [9] then DecodeFault (Some (demoPut\<lparr>body := None\<rparr>))
         else DecodeFault None),
      createHmac = (\<lambda>alg secret data. rev data)\<rparr>"

text \<open>
  The instance that has set the chunk and built the PUT request, and the frame it
  sends on an empty stream.
\<close>

definition demoSender :: Kinetic where
  "demoSender =
     snd (put demoLib 1456 (setChunk newKinetic demoChunk)
            (Some demoKey) (Some 0) None (Some [0x31]) (Some 0))"

definition demoFrame :: buffer where
  "demoFrame = snd (send demoLib demoSender [])"

section \<open>Properties\<close>

subsection \<open>The comparison of two buffers\<close>

lemma diff_loop_iff:
  "length buf0 = length buf1 \<Longrightarrow>
     diff_loop buf0 buf1 i = (\<forall>j. i \<le> j \<and> j < length buf0 \<longrightarrow> buf0 ! j = buf1 ! j)"
proof (induction buf0 buf1 i rule: diff_loop.induct)
  case (1 buf0 buf1 i)
  show ?case
  proof (cases "i \<le> length buf0")
    case False
    then show ?thesis by (subst diff_loop.simps) auto
  next
    case in_range: True
    show ?thesis
    proof (cases "buf_at buf0 i \<noteq> buf_at buf1 i")
      case True
      then have "i < length buf0" "buf0 ! i \<noteq> buf1 ! i"
        using "1.prems" by (auto simp: buf_at_def split: if_splits)
      then show ?thesis using True in_range by (subst diff_loop.simps) auto
    next
      case False
      then have same: "i < length buf0 \<Longrightarrow> buf0 ! i = buf1 ! i"
        using "1.prems" by (auto simp: buf_at_def)
      have "diff_loop buf0 buf1 i = diff_loop buf0 buf1 (i + 1)"
        using False in_range by (subst diff_loop.simps) simp
      also have "\<dots> = (\<forall>j. i + 1 \<le> j \<and> j < length buf0 \<longrightarrow> buf0 ! j = buf1 ! j)"
        using "1.IH" [OF in_range] False "1.prems" by simp
      also have "\<dots> = (\<forall>j. i \<le> j \<and> j < length buf0 \<longrightarrow> buf0 ! j = buf1 ! j)"
      proof (intro iffI allI impI)
        fix j
        assume later: "\<forall>j. i + 1 \<le> j \<and> j < length buf0 \<longrightarrow> buf0 ! j = buf1 ! j"
          and j: "i \<le> j \<and> j < length buf0"
        show "buf0 ! j = buf1 ! j"
        proof (cases "j = i")
          case True
          with j same show ?thesis by simp
        next
          case False
          with j have "i + 1 \<le> j \<and> j < length buf0" by simp
          with later show ?thesis by blast
        qed
      next
        fix j
        assume "\<forall>j. i \<le> j \<and> j < length buf0 \<longrightarrow> buf0 ! j = buf1 ! j"
          and "i + 1 \<le> j \<and> j < length buf0"
        then show "buf0 ! j = buf1 ! j" by simp
      qed
      finally show ?thesis .
    qed
  qed
qed

text \<open>
  C6. \<open>diff\<close> answers false for buffers of different lengths; for buffers of one
  length it answers true exactly when they hold the same byte at every index below
  that length. So it is byte equality: one differing byte gives false, identical
  buffers give true. The extra round of the loop at \<open>i = buf0.length\<close> compares
  \<open>undefined\<close> with \<open>undefined\<close> and changes nothing.
\<close>

theorem diff_is_byte_equality:
  "diff buf0 buf1 =
     (length buf0 = length buf1 \<and> (\<forall>i < length buf0. buf0 ! i = buf1 ! i))
   \<and> diff buf0 buf1 = (buf0 = buf1)
   \<and> diff buf0 buf0"
proof -
  have a: "diff buf0 buf1 =
      (length buf0 = length buf1 \<and> (\<forall>i < length buf0. buf0 ! i = buf1 ! i))"
    by (cases "length buf0 = length buf1") (simp_all add: diff_def diff_loop_iff)
  then have b: "diff buf0 buf1 = (buf0 = buf1)"
    by (auto simp: list_eq_iff_nth_eq)
  have c: "diff buf0 buf0"
    by (simp add: diff_def diff_loop_iff)
  from a b c show ?thesis by blast
qed

theorem diff_is_byte_equality_witness:
  "\<not> diff [1, 2, 3] [1, 2] \<and> \<not> diff [1, 2, 3] [1, 7, 3] \<and> diff [1, 2, 3] [1, 2, 3]"
  using diff_is_byte_equality [of "[1, 2, 3]" "[1, 2]", THEN conjunct2, THEN conjunct1]
    diff_is_byte_equality [of "[1, 2, 3]" "[1, 7, 3]", THEN conjunct2, THEN conjunct1]
    diff_is_byte_equality [of "[1, 2, 3]" "[1, 2, 3]", THEN conjunct2, THEN conjunct1]
  by simp

subsection \<open>Facts about the stand-in values and the error table\<close>

lemmas code_defs =
  SUCCESS_def HMAC_FAILURE_def VERSION_FAILURE_def INTERNAL_ERROR_def DATA_ERROR_def

lemmas inst_defs =
  setProtobuf_def setChunk_def setHMAC_def getSlice_def getVersion_def VERSION_def
  getProtobuf_def toBuffer_def getProtobufSize_def getChunk_def getChunkSize_def getHMAC_def

lemmas demo_defs =
  demoKey_def demoChunk_def demoPut_def demoCommandBytes_def demoDigest_def
  demoEnvelope_def demoLib_def newKinetic_def

lemmas parse_defs =
  parse_def parse_decode_def parse_validate_def hmacIntegrity_def
  readInt8_def readInt32BE_def writeInt32BE_def buffer_slice_def
  diff_def diff_loop.simps buf_at_def

lemma demoSender_eq:
  "demoSender = \<lparr>k_message = Some (PbMessage demoEnvelope), k_chunk = Some demoChunk,
                  k_hmac = Some demoDigest, k_cmd = None\<rparr>"
  by (simp add: demoSender_def put_def setMessage_def inst_defs demo_defs writeInt32BE_def)

lemma demoFrame_eq:
  "demoFrame = [0x46, 0, 0, 0, 1, 0, 0, 0, 6, 1, 0x4F, 0x4E, 0x20, 0x44, 0x49, 0x54]"
  by (simp add: demoFrame_def demoSender_eq send_def inst_defs writeInt32BE_def writeInt8_def
      code_defs demoChunk_def demoLib_def)

lemma demo_decode:
  "parse_decode demoLib st [1]
     = (None, setProtobuf (st\<lparr>k_cmd := Some demoEnvelope\<rparr>) (PbCommand demoPut))"
  by (simp add: parse_decode_def demoLib_def demoEnvelope_def)

lemma demoFrame_reads:
  "readInt8 demoFrame 0 = Inr 70" "readInt32BE demoFrame 1 = Inr 1"
  "readInt32BE demoFrame 5 = Inr 6" "buffer_slice demoFrame 9 (9 + 1) = [1]"
  "readInt8 (butlast demoFrame) 0 = Inr 70" "readInt32BE (butlast demoFrame) 1 = Inr 1"
  "readInt32BE (butlast demoFrame) 5 = Inr 6" "buffer_slice (butlast demoFrame) 9 (9 + 1) = [1]"
  by (simp_all add: demoFrame_eq readInt8_def readInt32BE_def buffer_slice_def)

lemma demoLib_decodes:
  "decodeMessage demoLib [9] = DecodeFault None"
  "decodeMessage demoLib [3] = DecodeFault (Some (demoEnvelope\<lparr>commandBytes := None\<rparr>))"
  "decodeMessage demoLib [4] = Decoded (demoEnvelope\<lparr>commandBytes := Some [9]\<rparr>)"
  "decodeCommand demoLib (commandBytes (demoEnvelope\<lparr>commandBytes := Some [9]\<rparr>))
     = DecodeFault (Some (demoPut\<lparr>body := None\<rparr>))"
  by (simp_all add: demoLib_def demoCommandBytes_def)

subsection \<open>Reading and writing the header fields\<close>

lemma be32_arith:
  fixes v :: int
  shows "(v div 2 ^ 24 mod 256) * 2 ^ 24 + (v div 2 ^ 16 mod 256) * 2 ^ 16
           + (v div 2 ^ 8 mod 256) * 2 ^ 8 + v mod 256 = v mod 2 ^ 32"
proof -
  have d16: "v div 65536 = v div 256 div 256"
    using zdiv_zmult2_eq [of 256 v 256] by simp
  have d24: "v div 16777216 = v div 256 div 256 div 256"
    using zdiv_zmult2_eq [of 256 v 65536] d16 by simp
  have m32: "v mod 4294967296 = 256 * (v div 256 mod 16777216) + v mod 256"
    using zmod_zmult2_eq [of 16777216 v 256] by simp
  have m24: "v div 256 mod 16777216 = 256 * (v div 256 div 256 mod 65536) + v div 256 mod 256"
    using zmod_zmult2_eq [of 65536 "v div 256" 256] by simp
  have m16: "v div 256 div 256 mod 65536
      = 256 * (v div 256 div 256 div 256 mod 256) + v div 256 div 256 mod 256"
    using zmod_zmult2_eq [of 256 "v div 256 div 256" 256] by simp
  show ?thesis
    by (simp add: d16 d24 m32 m24 m16)
qed

lemma uint_byte: "uint (word_of_int k :: byte) = k mod 256"
  by (simp add: uint_word_of_int take_bit_eq_mod)

lemma writeInt32BE_length: "writeInt32BE v = Inr b \<Longrightarrow> length b = 4"
  by (auto simp: writeInt32BE_def split: if_splits)

lemma writeInt32BE_fits:
  "n < 2 ^ 31 \<Longrightarrow> \<exists>b. writeInt32BE (int n) = Inr b"
  by (simp add: writeInt32BE_def)

lemma int32_roundtrip:
  assumes "writeInt32BE v = Inr b"
  shows "readInt32BE (xs @ b @ ys) (length xs) = Inr v"
proof -
  from assms have range: "- (2 ^ 31) \<le> v" "v \<le> 2 ^ 31 - 1"
    and b: "b = [word_of_int (v div 2 ^ 24), word_of_int (v div 2 ^ 16),
                word_of_int (v div 2 ^ 8), word_of_int v]"
    by (auto simp: writeInt32BE_def split: if_splits)
  have nth: "(xs @ b @ ys) ! length xs = word_of_int (v div 2 ^ 24)"
    "(xs @ b @ ys) ! (length xs + 1) = word_of_int (v div 2 ^ 16)"
    "(xs @ b @ ys) ! (length xs + 2) = word_of_int (v div 2 ^ 8)"
    "(xs @ b @ ys) ! (length xs + 3) = word_of_int v"
    by (simp_all add: b nth_append)
  have u: "uint (word_of_int (v div 2 ^ 24) :: byte) * 2 ^ 24
         + uint (word_of_int (v div 2 ^ 16) :: byte) * 2 ^ 16
         + uint (word_of_int (v div 2 ^ 8) :: byte) * 2 ^ 8
         + uint (word_of_int v :: byte) = v mod 2 ^ 32"
    unfolding uint_byte by (rule be32_arith)
  have signed: "(if 2 ^ 31 \<le> v mod 2 ^ 32 then v mod 2 ^ 32 - 2 ^ 32 else v mod 2 ^ 32) = v"
  proof (cases "0 \<le> v")
    case True
    with range have "v mod 2 ^ 32 = v" by simp
    with range show ?thesis by simp
  next
    case False
    with range have "v mod 2 ^ 32 = v + 2 ^ 32"
      using mod_add_self2 [of v "2 ^ 32"] mod_pos_pos_trivial [of "v + 2 ^ 32" "2 ^ 32"] by simp
    with False range show ?thesis by simp
  qed
  show ?thesis
    unfolding readInt32BE_def nth Let_def u signed
    by (simp add: b)
qed

lemma header_reads:
  assumes "9 \<le> length data"
  shows "\<exists>pbMsgLen chunkLen. readInt8 data 0 = Inr (sint (data ! 0))
           \<and> readInt32BE data 1 = Inr pbMsgLen \<and> readInt32BE data 5 = Inr chunkLen"
  using assms by (auto simp: readInt8_def readInt32BE_def Let_def)

lemma version_byte: "(sint (b :: byte) = getVersion) = (b = 0x46)"
proof -
  have "sint (0x46 :: byte) = 70" by simp
  then show ?thesis
    unfolding getVersion_def VERSION_def
    by (metis word_eq_iff_signed numeral_eq_iff)
qed

subsection \<open>Slices of a frame\<close>

lemma slice_envelope:
  assumes "length h = 9"
  shows "buffer_slice (h @ env @ rest) 9 (9 + int (length env)) = env"
  using assms by (simp add: buffer_slice_def Let_def min_def)

lemma slice_chunk:
  assumes "length h = 9"
  shows "buffer_slice (h @ env @ chunk @ rest) (int (length env) + 9)
           (int (length chunk) + int (length env) + 9) = chunk"
  using assms by (simp add: buffer_slice_def Let_def min_def)

lemma slice_length_declared:
  assumes "0 \<le> p"
  shows "(int (length (buffer_slice data (p + 9) (c + p + 9))) = c)
           = (c = 0 \<or> (0 < c \<and> c + p + 9 \<le> int (length data)))"
  using assms by (auto simp: buffer_slice_def Let_def min_def max_def)

subsection \<open>The integrity check\<close>

lemma diff_is_equal: "diff buf0 buf1 = (buf0 = buf1)"
  by (cases "length buf0 = length buf1") (auto simp: diff_def diff_loop_iff list_eq_iff_nth_eq)

lemma hmacIntegrity_no_digest:
  "k_hmac st = None \<Longrightarrow> hmacIntegrity L st h = (Inr (JsNumber HMAC_FAILURE), st)"
  by (simp add: hmacIntegrity_def getHMAC_def)

lemma hmacIntegrity_digest:
  assumes "k_hmac st = Some old" and "k_message st = Some pb"
    and "writeInt32BE (int (length (toBuffer L pb))) = Inr prefix"
  shows "hmacIntegrity L st (Some h) =
     (if h = createHmac L ''sha1'' ''asdfasdf'' (prefix @ toBuffer L pb)
      then Inr JsTrue else Inr (JsNumber HMAC_FAILURE),
      st\<lparr>k_hmac := Some (createHmac L ''sha1'' ''asdfasdf'' (prefix @ toBuffer L pb))\<rparr>)"
proof -
  have eq: "diff h x = (h = x)" for x
    using diff_is_equal by simp
  show ?thesis
    using assms by (simp add: hmacIntegrity_def getHMAC_def getProtobufSize_def setHMAC_def eq)
qed

lemma hmacIntegrity_message:
  "k_message (snd (hmacIntegrity L st h)) = k_message st"
  "k_chunk (snd (hmacIntegrity L st h)) = k_chunk st"
  "k_cmd (snd (hmacIntegrity L st h)) = k_cmd st"
  by (auto simp: hmacIntegrity_def setHMAC_def Let_def split: sum.splits option.splits)

lemma hmacIntegrity_cases:
  "fst (hmacIntegrity L st h) = Inr JsTrue \<or> fst (hmacIntegrity L st h) = Inr (JsNumber HMAC_FAILURE)
   \<or> fst (hmacIntegrity L st h) = Inl TypeError"
  by (auto simp: hmacIntegrity_def setHMAC_def getProtobufSize_def writeInt32BE_def Let_def
      split: sum.splits option.splits if_splits)

subsection \<open>The stages of parse\<close>

lemma parse_unfold:
  assumes "readInt8 data 0 = Inr version" and "readInt32BE data 1 = Inr pbMsgLen"
    and "readInt32BE data 5 = Inr chunkLen"
  shows "parse L st data =
     (if version \<noteq> getVersion then (Inr VERSION_FAILURE, st)
      else case parse_decode L st (buffer_slice data 9 (9 + pbMsgLen)) of
             (Some failure, st1) \<Rightarrow> (Inr failure, st1)
           | (None, st1) \<Rightarrow> parse_validate L st1 data pbMsgLen chunkLen)"
  using assms by (simp add: parse_def)

lemma parse_short:
  assumes "length data < 9"
  shows "parse L st data = (Inl RangeError, st)"
proof (cases "length data < 1")
  case True
  then show ?thesis by (simp add: parse_def readInt8_def)
next
  case one: False
  show ?thesis
  proof (cases "length data < 5")
    case True
    with one show ?thesis by (simp add: parse_def readInt8_def readInt32BE_def)
  next
    case False
    with one assms show ?thesis by (simp add: parse_def readInt8_def readInt32BE_def Let_def)
  qed
qed

lemma parse_decode_result:
  "fst (parse_decode L st envelope) = None \<or> fst (parse_decode L st envelope) = Some INTERNAL_ERROR"
  by (auto simp: parse_decode_def Let_def split: decoded.splits option.splits)

lemma parse_decode_stores:
  assumes "parse_decode L st envelope = (None, st1)"
  shows "k_message st1 \<noteq> None" and "k_chunk st1 = k_chunk st" and "k_hmac st1 = k_hmac st"
  using assms
  by (auto simp: parse_decode_def setProtobuf_def Let_def split: decoded.splits option.splits)

lemma parse_validate_chunk:
  "k_chunk (snd (parse_validate L st data p c)) = Some (buffer_slice data (p + 9) (c + p + 9))"
  by (auto simp: parse_validate_def setChunk_def Let_def hmacIntegrity_message
      split: option.splits sum.splits prod.splits
      dest: arg_cong [where f = "\<lambda>r. k_chunk (snd r)"])

lemma parse_validate_message:
  "k_message (snd (parse_validate L st data p c)) = k_message st"
  by (auto simp: parse_validate_def setChunk_def Let_def hmacIntegrity_message
      split: option.splits sum.splits prod.splits
      dest: arg_cong [where f = "\<lambda>r. k_message (snd r)"])

lemma parse_validate_data_error:
  "(fst (parse_validate L st data p c) = Inr DATA_ERROR)
     = (int (length (buffer_slice data (p + 9) (c + p + 9))) \<noteq> c)"
  by (auto simp: parse_validate_def setChunk_def getChunkSize_def Let_def code_defs
      split: option.splits sum.splits prod.splits)

lemma parse_validate_codes:
  "fst (parse_validate L st data p c) = Inr DATA_ERROR
   \<or> fst (parse_validate L st data p c) = Inr HMAC_FAILURE
   \<or> fst (parse_validate L st data p c) = Inr SUCCESS
   \<or> fst (parse_validate L st data p c) = Inl TypeError"
proof -
  have "e = TypeError" if "hmacIntegrity L s h = (Inl e, s')" for s h e s'
    using hmacIntegrity_cases [of L s h] that by simp
  then show ?thesis
    by (auto simp: parse_validate_def getSlice_def Let_def
        split: option.splits sum.splits prod.splits)
qed


subsection \<open>The version gate\<close>

lemma parse_bad_version:
  assumes "9 \<le> length data" and "data ! 0 \<noteq> 0x46"
  shows "parse L st data = (Inr VERSION_FAILURE, st)"
proof -
  from header_reads [OF assms(1)] obtain pbMsgLen chunkLen
    where reads: "readInt8 data 0 = Inr (sint (data ! 0))"
      "readInt32BE data 1 = Inr pbMsgLen" "readInt32BE data 5 = Inr chunkLen"
    by blast
  from assms(2) have "sint (data ! 0) \<noteq> getVersion"
    by (simp add: version_byte)
  then show ?thesis
    by (simp add: parse_unfold [OF reads])
qed

text \<open>
  C3. On a buffer of at least nine bytes whose first byte is not \<open>0x46\<close>, \<open>parse\<close>
  returns \<open>VERSION_FAILURE\<close>, whatever the other bytes are. The answer is the same
  for every library and every instance: no decoder, chunk length or digest is
  consulted before the version is compared.
\<close>

theorem parse_version_gate:
  assumes "9 \<le> length data" and "data ! 0 \<noteq> 0x46"
  shows "fst (parse L st data) = Inr VERSION_FAILURE
       \<and> fst (parse L' st' data) = fst (parse L st data)"
  using assms by (simp add: parse_bad_version)

theorem parse_version_gate_witness:
  "fst (parse demoLib demoSender (0x47 # tl demoFrame)) = Inr VERSION_FAILURE
   \<and> fst (parse demoLib newKinetic (0x47 # tl demoFrame))
       = fst (parse demoLib demoSender (0x47 # tl demoFrame))"
  using parse_version_gate [of "0x47 # tl demoFrame" demoLib demoSender demoLib newKinetic]
  by (simp add: demoFrame_eq)

text \<open>
  C10. On a buffer of at least nine bytes whose first byte is not \<open>0x46\<close>, \<open>parse\<close>
  returns \<open>VERSION_FAILURE\<close> and leaves the instance as it was: \<open>_message\<close>,
  \<open>_chunk\<close>, \<open>_hmac\<close> and \<open>_cmd\<close> are unchanged. The returns of \<open>DATA_ERROR\<close> and
  \<open>HMAC_FAILURE\<close> come later: by then \<open>_message\<close> holds what the decoders left and
  \<open>_chunk\<close> holds the slice of the data after the envelope region.
\<close>

theorem parse_version_failure_frame:
  assumes "9 \<le> length data"
  shows "(data ! 0 \<noteq> 0x46 \<longrightarrow> parse L st data = (Inr VERSION_FAILURE, st))
       \<and> (fst (parse L st data) = Inr DATA_ERROR \<or> fst (parse L st data) = Inr HMAC_FAILURE \<longrightarrow>
            (\<exists>pbMsgLen chunkLen st1.
               readInt32BE data 1 = Inr pbMsgLen \<and> readInt32BE data 5 = Inr chunkLen
             \<and> parse_decode L st (buffer_slice data 9 (9 + pbMsgLen)) = (None, st1)
             \<and> k_message (snd (parse L st data)) = k_message st1
             \<and> k_message st1 \<noteq> None
             \<and> k_chunk (snd (parse L st data))
                 = Some (buffer_slice data (pbMsgLen + 9) (chunkLen + pbMsgLen + 9))))"
proof (intro conjI impI)
  assume "data ! 0 \<noteq> 0x46"
  with assms show "parse L st data = (Inr VERSION_FAILURE, st)"
    by (rule parse_bad_version)
next
  assume late: "fst (parse L st data) = Inr DATA_ERROR \<or> fst (parse L st data) = Inr HMAC_FAILURE"
  from header_reads [OF assms] obtain pbMsgLen chunkLen
    where reads: "readInt8 data 0 = Inr (sint (data ! 0))"
      "readInt32BE data 1 = Inr pbMsgLen" "readInt32BE data 5 = Inr chunkLen"
    by blast
  note unfold = parse_unfold [OF reads, of L st]
  obtain r st1 where decode: "parse_decode L st (buffer_slice data 9 (9 + pbMsgLen)) = (r, st1)"
    by (cases "parse_decode L st (buffer_slice data 9 (9 + pbMsgLen))")
  have version: "sint (data ! 0) = getVersion"
    using late unfold by (auto simp: code_defs split: if_splits)
  have "r = None"
    using late unfold version decode parse_decode_result [of L st "buffer_slice data 9 (9 + pbMsgLen)"]
    by (auto simp: code_defs)
  with unfold version decode
  have run: "parse L st data = parse_validate L st1 data pbMsgLen chunkLen"
    and decode': "parse_decode L st (buffer_slice data 9 (9 + pbMsgLen)) = (None, st1)"
    by simp_all
  show "\<exists>pbMsgLen chunkLen st1.
          readInt32BE data 1 = Inr pbMsgLen \<and> readInt32BE data 5 = Inr chunkLen
        \<and> parse_decode L st (buffer_slice data 9 (9 + pbMsgLen)) = (None, st1)
        \<and> k_message (snd (parse L st data)) = k_message st1
        \<and> k_message st1 \<noteq> None
        \<and> k_chunk (snd (parse L st data))
            = Some (buffer_slice data (pbMsgLen + 9) (chunkLen + pbMsgLen + 9))"
    using reads decode' parse_decode_stores(1) [OF decode']
    by (auto simp: run parse_validate_message parse_validate_chunk)
qed

theorem parse_version_failure_frame_witness:
  "parse demoLib newKinetic (0x47 # tl demoFrame) = (Inr VERSION_FAILURE, newKinetic)
   \<and> fst (parse demoLib newKinetic (butlast demoFrame)) = Inr DATA_ERROR
   \<and> k_chunk (snd (parse demoLib newKinetic (butlast demoFrame)))
       = Some [0x4F, 0x4E, 0x20, 0x44, 0x49]
   \<and> k_message (snd (parse demoLib newKinetic (butlast demoFrame))) = Some (PbCommand demoPut)"
proof -
  have a: "parse demoLib newKinetic (0x47 # tl demoFrame) = (Inr VERSION_FAILURE, newKinetic)"
    using parse_version_failure_frame [of "0x47 # tl demoFrame" demoLib newKinetic]
    by (simp add: demoFrame_eq)
  have b: "fst (parse demoLib newKinetic (butlast demoFrame)) = Inr DATA_ERROR"
    by (simp add: demoFrame_eq parse_defs inst_defs code_defs demo_defs)
  have c: "k_chunk (snd (parse demoLib newKinetic (butlast demoFrame)))
       = Some [0x4F, 0x4E, 0x20, 0x44, 0x49]"
    using parse_version_failure_frame [of "butlast demoFrame" demoLib newKinetic] b
    by (auto simp: demoFrame_eq readInt32BE_def buffer_slice_def)
  have d: "k_message (snd (parse demoLib newKinetic (butlast demoFrame))) = Some (PbCommand demoPut)"
    by (simp add: demoFrame_eq parse_defs inst_defs code_defs demo_defs)
  from a b c d show ?thesis by blast
qed


subsection \<open>The frame that send writes\<close>

lemma send_frame:
  assumes "k_message st = Some pb"
    and "writeInt32BE (int (length (toBuffer L pb))) = Inr lenE"
    and "writeInt32BE (int (length (case k_chunk st of None \<Rightarrow> [] | Some c \<Rightarrow> c))) = Inr lenC"
  shows "send L st sock =
           (Inr SUCCESS, sock @ [0x46] @ lenE @ lenC @ toBuffer L pb
                           @ (case k_chunk st of None \<Rightarrow> [] | Some c \<Rightarrow> c))"
  using assms
  by (cases "k_chunk st")
     (simp_all add: send_def writeInt8_def getVersion_def VERSION_def getProtobufSize_def
       getChunkSize_def getChunk_def)

text \<open>
  C9. For an instance that holds a message, \<open>send\<close> appends to the stream exactly
  the version byte \<open>0x46\<close>, the four-byte big-endian length of the encoded message,
  the four-byte big-endian length of the chunk (0 when none is set), the encoded
  message and the chunk, and nothing else; the two length fields read back as the
  numbers of bytes of the two regions. The lengths are below \<open>2 ^ 31\<close>, as the
  lengths of all Node buffers are.
\<close>

theorem send_frame_layout:
  assumes "k_message st = Some pb"
    and "env = toBuffer L pb"
    and "chunk = (case k_chunk st of None \<Rightarrow> [] | Some c \<Rightarrow> c)"
    and "length env < 2 ^ 31" and "length chunk < 2 ^ 31"
  shows "\<exists>lenE lenC frame.
           writeInt32BE (int (length env)) = Inr lenE
         \<and> writeInt32BE (int (length chunk)) = Inr lenC
         \<and> frame = [0x46] @ lenE @ lenC @ env @ chunk
         \<and> send L st sock = (Inr SUCCESS, sock @ frame)
         \<and> length frame = 9 + length env + length chunk
         \<and> readInt8 frame 0 = Inr 0x46
         \<and> readInt32BE frame 1 = Inr (int (length env))
         \<and> readInt32BE frame 5 = Inr (int (length chunk))
         \<and> buffer_slice frame 9 (9 + int (length env)) = env
         \<and> buffer_slice frame (int (length env) + 9) (int (length chunk) + int (length env) + 9)
             = chunk"
proof -
  from writeInt32BE_fits [OF assms(4)] obtain lenE
    where lenE: "writeInt32BE (int (length env)) = Inr lenE" by blast
  from writeInt32BE_fits [OF assms(5)] obtain lenC
    where lenC: "writeInt32BE (int (length chunk)) = Inr lenC" by blast
  define frame where "frame = [0x46] @ lenE @ lenC @ env @ chunk"
  have l4: "length lenE = 4" "length lenC = 4"
    using lenE lenC by (simp_all add: writeInt32BE_length)
  have sent: "send L st sock = (Inr SUCCESS, sock @ frame)"
    using send_frame [of st pb L lenE lenC sock] assms(1) lenE lenC
    by (simp add: frame_def assms(2,3))
  have len: "length frame = 9 + length env + length chunk"
    by (simp add: frame_def l4)
  have v: "readInt8 frame 0 = Inr 0x46"
    by (simp add: frame_def readInt8_def)
  have r1: "readInt32BE frame 1 = Inr (int (length env))"
    using int32_roundtrip [OF lenE, of "[0x46]" "lenC @ env @ chunk"]
    by (simp add: frame_def)
  have r5: "readInt32BE frame 5 = Inr (int (length chunk))"
    using int32_roundtrip [OF lenC, of "[0x46] @ lenE" "env @ chunk"]
    by (simp add: frame_def l4)
  have s1: "buffer_slice frame 9 (9 + int (length env)) = env"
    using slice_envelope [of "[0x46] @ lenE @ lenC" env chunk]
    by (simp add: frame_def l4)
  have s2: "buffer_slice frame (int (length env) + 9) (int (length chunk) + int (length env) + 9)
             = chunk"
    using slice_chunk [of "[0x46] @ lenE @ lenC" env chunk "[]"]
    by (simp add: frame_def l4)
  from lenE lenC sent len v r1 r5 s1 s2 show ?thesis
    unfolding frame_def by blast
qed

theorem send_frame_layout_witness:
  "send demoLib demoSender []
     = (Inr SUCCESS, [0x46, 0, 0, 0, 1, 0, 0, 0, 6, 1, 0x4F, 0x4E, 0x20, 0x44, 0x49, 0x54])"
  using send_frame_layout [of demoSender "PbMessage demoEnvelope" "[1]" demoLib demoChunk "[]"]
  by (simp add: demoSender_eq demoLib_def toBuffer_def demoChunk_def writeInt32BE_def)


subsection \<open>The chunk length\<close>

text \<open>
  C4 as stated does not hold. A frame that declares six chunk bytes and carries
  seven after its envelope passes the version and the decode stage, and \<open>parse\<close>
  returns \<open>SUCCESS\<close>, not \<open>DATA_ERROR\<close>: the chunk is the slice of the declared
  length, and the byte after it is not looked at.
\<close>

theorem parse_surplus_bytes_counterexample:
  "readInt8 (demoFrame @ [0xFF]) 0 = Inr getVersion
   \<and> readInt32BE (demoFrame @ [0xFF]) 1 = Inr 1
   \<and> readInt32BE (demoFrame @ [0xFF]) 5 = Inr 6
   \<and> fst (parse_decode demoLib demoSender (buffer_slice (demoFrame @ [0xFF]) 9 (9 + 1))) = None
   \<and> int (length (demoFrame @ [0xFF])) - 9 - 1 = 7
   \<and> fst (parse demoLib demoSender (demoFrame @ [0xFF])) = Inr SUCCESS
   \<and> fst (parse demoLib demoSender (demoFrame @ [0xFF])) \<noteq> Inr DATA_ERROR"
  by (simp add: demoFrame_eq demoSender_eq parse_defs inst_defs code_defs demo_defs)

text \<open>
  C4, amended. For a frame that passes the version and decode stages, \<open>parse\<close>
  returns \<open>DATA_ERROR\<close> exactly when the declared chunk length differs from the
  length of the chunk that \<open>slice\<close> cuts from the data after the envelope region.
  With an envelope length that is not negative, that is exactly when the declared
  chunk length is negative, or is positive and more than the number of bytes that
  follow the envelope region. Bytes beyond the declared chunk length are ignored.
\<close>

theorem parse_chunk_length_gate:
  assumes "readInt8 data 0 = Inr version" and "readInt32BE data 1 = Inr pbMsgLen"
    and "readInt32BE data 5 = Inr chunkLen"
    and "version = getVersion"
    and "parse_decode L st (buffer_slice data 9 (9 + pbMsgLen)) = (None, st1)"
  shows "((fst (parse L st data) = Inr DATA_ERROR)
            = (int (length (buffer_slice data (pbMsgLen + 9) (chunkLen + pbMsgLen + 9))) \<noteq> chunkLen))
       \<and> (0 \<le> pbMsgLen \<longrightarrow>
            (fst (parse L st data) = Inr DATA_ERROR)
              = (chunkLen < 0 \<or> (0 < chunkLen \<and> int (length data) - 9 - pbMsgLen < chunkLen)))"
proof -
  have run: "parse L st data = parse_validate L st1 data pbMsgLen chunkLen"
    using parse_unfold [OF assms(1-3), of L st] assms(4,5) by simp
  have a: "(fst (parse L st data) = Inr DATA_ERROR)
            = (int (length (buffer_slice data (pbMsgLen + 9) (chunkLen + pbMsgLen + 9))) \<noteq> chunkLen)"
    by (simp add: run parse_validate_data_error)
  have b: "(fst (parse L st data) = Inr DATA_ERROR)
              = (chunkLen < 0 \<or> (0 < chunkLen \<and> int (length data) - 9 - pbMsgLen < chunkLen))"
    if "0 \<le> pbMsgLen"
    unfolding a slice_length_declared [OF that] by auto
  from a b show ?thesis by blast
qed

theorem parse_chunk_length_gate_witness:
  "fst (parse demoLib demoSender (butlast demoFrame)) = Inr DATA_ERROR
   \<and> fst (parse demoLib demoSender demoFrame) \<noteq> Inr DATA_ERROR"
proof -
  have v: "(70 :: int) = getVersion"
    by (simp add: getVersion_def VERSION_def)
  have d: "parse_decode demoLib demoSender (buffer_slice (butlast demoFrame) 9 (9 + 1))
      = (None, setProtobuf (demoSender\<lparr>k_cmd := Some demoEnvelope\<rparr>) (PbCommand demoPut))"
    "parse_decode demoLib demoSender (buffer_slice demoFrame 9 (9 + 1))
      = (None, setProtobuf (demoSender\<lparr>k_cmd := Some demoEnvelope\<rparr>) (PbCommand demoPut))"
    by (simp_all only: demoFrame_reads demo_decode)
  have a: "fst (parse demoLib demoSender (butlast demoFrame)) = Inr DATA_ERROR"
    using parse_chunk_length_gate [OF demoFrame_reads(5-7) v d(1), THEN conjunct2]
    by (simp add: demoFrame_eq)
  have b: "fst (parse demoLib demoSender demoFrame) \<noteq> Inr DATA_ERROR"
    using parse_chunk_length_gate [OF demoFrame_reads(1-3) v d(2), THEN conjunct2]
    by (simp add: demoFrame_eq)
  from a b show ?thesis by blast
qed


subsection \<open>The digest stage\<close>

lemma parse_validate_no_auth:
  assumes "int (length (buffer_slice data (p + 9) (c + p + 9))) = c"
    and "k_cmd st = Some env" and "authType env \<noteq> Some 1"
  shows "parse_validate L st data p c
           = (Inr SUCCESS, setChunk st (buffer_slice data (p + 9) (c + p + 9)))"
  using assms by (simp add: parse_validate_def setChunk_def getChunkSize_def Let_def)

lemma parse_validate_hmac:
  assumes "int (length (buffer_slice data (p + 9) (c + p + 9))) = c"
    and "k_cmd st = Some env" and "authType env = Some 1"
    and "hmacAuth env = Some auth" and "hmac auth = Some h"
    and "k_message st = Some pb"
    and "writeInt32BE (int (length (toBuffer L pb))) = Inr prefix"
  shows "fst (parse_validate L st data p c) =
           (if k_hmac st = None \<or> h \<noteq> createHmac L ''sha1'' ''asdfasdf'' (prefix @ toBuffer L pb)
            then Inr HMAC_FAILURE else Inr SUCCESS)"
proof (cases "k_hmac st")
  case None
  then have "hmacIntegrity L (setChunk st (buffer_slice data (p + 9) (c + p + 9))) (Some h)
      = (Inr (JsNumber HMAC_FAILURE), setChunk st (buffer_slice data (p + 9) (c + p + 9)))"
    by (simp add: hmacIntegrity_no_digest setChunk_def)
  with assms None show ?thesis
    by (simp add: parse_validate_def setChunk_def getChunkSize_def getSlice_def Let_def)
next
  case (Some old)
  let ?st1 = "setChunk st (buffer_slice data (p + 9) (c + p + 9))"
  let ?computed = "createHmac L ''sha1'' ''asdfasdf'' (prefix @ toBuffer L pb)"
  have "k_hmac ?st1 = Some old" "k_message ?st1 = Some pb"
    using Some assms(6) by (simp_all add: setChunk_def)
  from hmacIntegrity_digest [OF this assms(7), of h]
  have check: "hmacIntegrity L ?st1 (Some h) =
      (if h = ?computed then Inr JsTrue else Inr (JsNumber HMAC_FAILURE),
       ?st1\<lparr>k_hmac := Some ?computed\<rparr>)" .
  have size: "getChunkSize ?st1 = c"
    using assms(1) by (simp add: getChunkSize_def setChunk_def)
  have cmd: "k_cmd ?st1 = Some env"
    using assms(2) by (simp add: setChunk_def)
  have "parse_validate L st data p c =
      (case hmacIntegrity L ?st1 (Some h) of
         (Inl e, st2) \<Rightarrow> (Inl e, st2)
       | (Inr r, st2) \<Rightarrow> if r \<noteq> JsTrue then (Inr HMAC_FAILURE, st2) else (Inr SUCCESS, st2))"
    unfolding parse_validate_def Let_def size cmd
    using assms(3-5) by (simp add: getSlice_def)
  then show ?thesis
    unfolding check using Some by simp
qed

lemma parse_validate_absent_digest:
  assumes "int (length (buffer_slice data (p + 9) (c + p + 9))) = c"
    and "k_cmd st = Some env" and "authType env = Some 1"
    and "hmacAuth env = None \<or> (\<exists>auth. hmacAuth env = Some auth \<and> hmac auth = None)"
  shows "fst (parse_validate L st data p c) = Inl TypeError"
  using assms
  by (auto simp: parse_validate_def setChunk_def getChunkSize_def getSlice_def Let_def)

text \<open>
  C2. For an envelope of type HMAC (\<open>authType\<close> 1) that has passed the version, decode
  and chunk stages, the claim holds whenever the envelope carries a digest (lemma
  \<open>parse_validate_hmac\<close>: \<open>HMAC_FAILURE\<close> exactly when the instance holds no digest
  or the recomputed digest differs from the carried one, \<open>SUCCESS\<close> otherwise). It
  fails on an envelope that carries no digest: \<open>parse\<close> reads
  \<open>this._cmd.hmacAuth.hmac\<close> and calls \<open>getSlice\<close> on it before \<open>hmacIntegrity\<close>
  can test for the missing digest, and a TypeError is thrown where the claim has
  \<open>HMAC_FAILURE\<close>.
\<close>

theorem parse_absent_digest_throws:
  assumes "readInt8 data 0 = Inr version" and "readInt32BE data 1 = Inr pbMsgLen"
    and "readInt32BE data 5 = Inr chunkLen"
    and "version = getVersion"
    and "parse_decode L st (buffer_slice data 9 (9 + pbMsgLen)) = (None, st1)"
    and "int (length (buffer_slice data (pbMsgLen + 9) (chunkLen + pbMsgLen + 9))) = chunkLen"
    and "k_cmd st1 = Some env" and "authType env = Some 1"
    and "hmacAuth env = None \<or> (\<exists>auth. hmacAuth env = Some auth \<and> hmac auth = None)"
  shows "fst (parse L st data) = Inl TypeError \<and> fst (parse L st data) \<noteq> Inr HMAC_FAILURE"
proof -
  have "parse L st data = parse_validate L st1 data pbMsgLen chunkLen"
    using parse_unfold [OF assms(1-3), of L st] assms(4,5) by simp
  then show ?thesis
    using parse_validate_absent_digest [OF assms(6-9), of L] by simp
qed

theorem parse_absent_digest_throws_witness:
  "fst (parse demoLib demoSender [0x46, 0, 0, 0, 1, 0, 0, 0, 0, 2]) = Inl TypeError
   \<and> fst (parse demoLib demoSender [0x46, 0, 0, 0, 1, 0, 0, 0, 0, 2]) \<noteq> Inr HMAC_FAILURE"
proof -
  let ?data = "[0x46, 0, 0, 0, 1, 0, 0, 0, 0, 2] :: buffer"
  let ?env = "demoEnvelope\<lparr>hmacAuth := None\<rparr>"
  have reads: "readInt8 ?data 0 = Inr 70" "readInt32BE ?data 1 = Inr 1"
    "readInt32BE ?data 5 = Inr 0"
    by (simp_all add: readInt8_def readInt32BE_def)
  have v: "(70 :: int) = getVersion"
    by (simp add: getVersion_def VERSION_def)
  have d: "parse_decode demoLib demoSender (buffer_slice ?data 9 (9 + 1))
      = (None, setProtobuf (demoSender\<lparr>k_cmd := Some ?env\<rparr>) (PbCommand demoPut))"
    by (simp add: buffer_slice_def parse_decode_def demoLib_def demoEnvelope_def)
  have c: "int (length (buffer_slice ?data (1 + 9) (0 + 1 + 9))) = 0"
    by (simp add: buffer_slice_def)
  have e: "k_cmd (setProtobuf (demoSender\<lparr>k_cmd := Some ?env\<rparr>) (PbCommand demoPut)) = Some ?env"
    "authType ?env = Some 1"
    "hmacAuth ?env = None \<or> (\<exists>auth. hmacAuth ?env = Some auth \<and> hmac auth = None)"
    by (simp_all add: setProtobuf_def demoEnvelope_def)
  show ?thesis
    by (rule parse_absent_digest_throws [OF reads v d c e])
qed


subsection \<open>Decode faults\<close>

lemma parse_validate_not_internal:
  "fst (parse_validate L st data p c) \<noteq> Inr INTERNAL_ERROR"
  using parse_validate_codes [of L st data p c] by (auto simp: code_defs)

lemma toBuffer_decoder:
  "toBuffer (L\<lparr>decodeCommand := f\<rparr>) = toBuffer L"
  by (simp add: fun_eq_iff toBuffer_def split: protobuf.splits)

lemma lib_decoder_irrelevant:
  "getProtobufSize (L\<lparr>decodeCommand := f\<rparr>) = getProtobufSize L"
  "setHMAC (L\<lparr>decodeCommand := f\<rparr>) = setHMAC L"
  unfolding fun_eq_iff getProtobufSize_def setHMAC_def toBuffer_decoder
  by simp_all

lemma parse_validate_decoder:
  "parse_validate (L\<lparr>decodeCommand := f\<rparr>) st data p c = parse_validate L st data p c"
  unfolding parse_validate_def hmacIntegrity_def lib_decoder_irrelevant toBuffer_decoder
  by (rule refl)

lemma parse_validate_cmd:
  "k_cmd (snd (parse_validate L st data p c)) = k_cmd st"
  by (auto simp: parse_validate_def setChunk_def Let_def hmacIntegrity_message
      split: option.splits sum.splits prod.splits
      dest: arg_cong [where f = "\<lambda>r. k_cmd (snd r)"])

lemma parse_validate_no_cmd:
  assumes "int (length (buffer_slice data (p + 9) (c + p + 9))) = c" and "k_cmd st = None"
  shows "fst (parse_validate L st data p c) = Inl TypeError"
  using assms by (simp add: parse_validate_def setChunk_def getChunkSize_def Let_def)

text \<open>
  The part of C8 that the code keeps. Past the version gate, a fault of either
  decoder that carries no structure makes \<open>parse\<close> return \<open>INTERNAL_ERROR\<close>. A
  fault of the decoder of the command bytes that carries a partial command has that
  command stored, and \<open>parse\<close> goes on with the chunk and the digest stage: its
  result is the one it gives when the decoder returns the same command without a
  fault, and it is never \<open>INTERNAL_ERROR\<close>.
\<close>

lemma parse_command_fault:
  assumes "readInt8 data 0 = Inr version" and "readInt32BE data 1 = Inr pbMsgLen"
    and "readInt32BE data 5 = Inr chunkLen"
    and "version = getVersion"
    and "envelope = buffer_slice data 9 (9 + pbMsgLen)"
  shows "(decodeMessage L envelope = DecodeFault None \<longrightarrow>
            parse L st data = (Inr INTERNAL_ERROR, st))
       \<and> (\<forall>m. decodeMessage L envelope = Decoded m
                \<and> decodeCommand L (commandBytes m) = DecodeFault None \<longrightarrow>
            parse L st data = (Inr INTERNAL_ERROR, st\<lparr>k_cmd := Some m\<rparr>))
       \<and> (\<forall>m partial. decodeMessage L envelope = Decoded m
                \<and> decodeCommand L (commandBytes m) = DecodeFault (Some partial) \<longrightarrow>
            parse L st data
              = parse_validate L (setProtobuf (st\<lparr>k_cmd := Some m\<rparr>) (PbCommand partial))
                  data pbMsgLen chunkLen
          \<and> k_message (snd (parse L st data)) = Some (PbCommand partial)
          \<and> k_cmd (snd (parse L st data)) = Some m
          \<and> fst (parse L st data) \<noteq> Inr INTERNAL_ERROR
          \<and> parse L st data = parse (L\<lparr>decodeCommand := (\<lambda>b. Decoded partial)\<rparr>) st data)"
proof -
  note unfold = parse_unfold [OF assms(1-3), folded assms(5)]
  have a: "parse L st data = (Inr INTERNAL_ERROR, st)"
    if "decodeMessage L envelope = DecodeFault None"
    using that assms(4) by (simp add: unfold parse_decode_def)
  have b: "parse L st data = (Inr INTERNAL_ERROR, st\<lparr>k_cmd := Some m\<rparr>)"
    if "decodeMessage L envelope = Decoded m" "decodeCommand L (commandBytes m) = DecodeFault None"
    for m
    using that assms(4) by (simp add: unfold parse_decode_def)
  have d: "parse L st data
              = parse_validate L (setProtobuf (st\<lparr>k_cmd := Some m\<rparr>) (PbCommand partial))
                  data pbMsgLen chunkLen
          \<and> k_message (snd (parse L st data)) = Some (PbCommand partial)
          \<and> k_cmd (snd (parse L st data)) = Some m
          \<and> fst (parse L st data) \<noteq> Inr INTERNAL_ERROR
          \<and> parse L st data = parse (L\<lparr>decodeCommand := (\<lambda>b. Decoded partial)\<rparr>) st data"
    if "decodeMessage L envelope = Decoded m"
      "decodeCommand L (commandBytes m) = DecodeFault (Some partial)" for m partial
  proof -
    have run: "parse L st data
        = parse_validate L (setProtobuf (st\<lparr>k_cmd := Some m\<rparr>) (PbCommand partial))
            data pbMsgLen chunkLen"
      using that assms(4) by (simp add: unfold parse_decode_def)
    have other: "parse (L\<lparr>decodeCommand := (\<lambda>b. Decoded partial)\<rparr>) st data
        = parse_validate L (setProtobuf (st\<lparr>k_cmd := Some m\<rparr>) (PbCommand partial))
            data pbMsgLen chunkLen"
      using that(1) assms(4)
      by (simp add: parse_unfold [OF assms(1-3), folded assms(5)] parse_decode_def
          parse_validate_decoder)
    show ?thesis
      unfolding other unfolding run
      by (simp add: parse_validate_message parse_validate_cmd parse_validate_not_internal
          setProtobuf_def)
  qed
  from a b d show ?thesis by blast
qed

text \<open>
  C8. The claim has \<open>parse\<close> adopt the partial structure of a decode fault and go
  on through the remaining stages, for the envelope as for the command bytes. For
  the envelope the code does not: \<open>this._cmd\<close> is assigned inside the \<open>try\<close>
  block, so when \<open>Message.decode\<close> throws, the \<open>catch\<close> block stores the partial
  envelope in \<open>_message\<close> and \<open>_cmd\<close> keeps the value it had. With a chunk of the
  declared length, the digest stage then reads \<open>this._cmd.authType\<close>: on an instance
  that has decoded no envelope before, \<open>parse\<close> throws a TypeError; on one that
  has, the stage judges that earlier envelope and not the adopted one, so that an
  earlier envelope without HMAC authentication gives \<open>SUCCESS\<close> whatever the
  partial envelope holds.
\<close>

theorem parse_partial_envelope_fault:
  assumes "readInt8 data 0 = Inr version" and "readInt32BE data 1 = Inr pbMsgLen"
    and "readInt32BE data 5 = Inr chunkLen"
    and "version = getVersion"
    and "decodeMessage L (buffer_slice data 9 (9 + pbMsgLen)) = DecodeFault (Some partial)"
    and "int (length (buffer_slice data (pbMsgLen + 9) (chunkLen + pbMsgLen + 9))) = chunkLen"
  shows "k_message (snd (parse L st data)) = Some (PbMessage partial)
       \<and> k_cmd (snd (parse L st data)) = k_cmd st
       \<and> (k_cmd st = None \<longrightarrow> fst (parse L st data) = Inl TypeError)
       \<and> (\<forall>earlier. k_cmd st = Some earlier \<and> authType earlier \<noteq> Some 1 \<longrightarrow>
            fst (parse L st data) = Inr SUCCESS)"
proof -
  let ?st1 = "setProtobuf st (PbMessage partial)"
  have run: "parse L st data = parse_validate L ?st1 data pbMsgLen chunkLen"
    using assms(4,5) by (simp add: parse_unfold [OF assms(1-3)] parse_decode_def)
  have cmd: "k_cmd ?st1 = k_cmd st"
    by (simp add: setProtobuf_def)
  have a: "k_message (snd (parse L st data)) = Some (PbMessage partial)"
    unfolding run parse_validate_message by (simp add: setProtobuf_def)
  have b: "k_cmd (snd (parse L st data)) = k_cmd st"
    unfolding run parse_validate_cmd by (rule cmd)
  have c: "fst (parse L st data) = Inl TypeError" if "k_cmd st = None"
    unfolding run using parse_validate_no_cmd [OF assms(6), of ?st1 L] that cmd by simp
  have d: "fst (parse L st data) = Inr SUCCESS"
    if "k_cmd st = Some earlier \<and> authType earlier \<noteq> Some 1" for earlier
    unfolding run using parse_validate_no_auth [OF assms(6), of ?st1 earlier L] that cmd by simp
  from a b c d show ?thesis by blast
qed

theorem parse_partial_envelope_fault_witness:
  "fst (parse demoLib demoSender [0x46, 0, 0, 0, 1, 0, 0, 0, 0, 3]) = Inl TypeError
   \<and> k_message (snd (parse demoLib demoSender [0x46, 0, 0, 0, 1, 0, 0, 0, 0, 3]))
       = Some (PbMessage (demoEnvelope\<lparr>commandBytes := None\<rparr>))
   \<and> k_cmd (snd (parse demoLib demoSender [0x46, 0, 0, 0, 1, 0, 0, 0, 0, 3])) = None
   \<and> fst (parse demoLib (demoSender\<lparr>k_cmd := Some (demoEnvelope\<lparr>authType := None\<rparr>)\<rparr>)
            [0x46, 0, 0, 0, 1, 0, 0, 0, 0, 3]) = Inr SUCCESS"
proof -
  let ?data = "[0x46, 0, 0, 0, 1, 0, 0, 0, 0, 3] :: buffer"
  let ?earlier = "demoEnvelope\<lparr>authType := None\<rparr>"
  have v: "(70 :: int) = getVersion"
    by (simp add: getVersion_def VERSION_def)
  have reads: "readInt8 ?data 0 = Inr 70" "readInt32BE ?data 1 = Inr 1"
    "readInt32BE ?data 5 = Inr 0"
    by (simp_all add: readInt8_def readInt32BE_def)
  have fault: "decodeMessage demoLib (buffer_slice ?data 9 (9 + 1))
      = DecodeFault (Some (demoEnvelope\<lparr>commandBytes := None\<rparr>))"
    by (simp add: buffer_slice_def demoLib_decodes)
  have chunk: "int (length (buffer_slice ?data (1 + 9) (0 + 1 + 9))) = 0"
    by (simp add: buffer_slice_def)
  note run = parse_partial_envelope_fault [OF reads v fault chunk]
  have none: "k_cmd demoSender = None"
    by (simp add: demoSender_eq)
  have held: "k_cmd (demoSender\<lparr>k_cmd := Some ?earlier\<rparr>) = Some ?earlier
      \<and> authType ?earlier \<noteq> Some 1"
    by (simp add: demoEnvelope_def)
  from run [of demoSender] none
  have a: "fst (parse demoLib demoSender ?data) = Inl TypeError"
    and b: "k_message (snd (parse demoLib demoSender ?data))
       = Some (PbMessage (demoEnvelope\<lparr>commandBytes := None\<rparr>))"
    and c: "k_cmd (snd (parse demoLib demoSender ?data)) = None"
    by simp_all
  from run [of "demoSender\<lparr>k_cmd := Some ?earlier\<rparr>"] held
  have d: "fst (parse demoLib (demoSender\<lparr>k_cmd := Some ?earlier\<rparr>) ?data) = Inr SUCCESS"
    by blast
  from a b c d show ?thesis by blast
qed

subsection \<open>The result of parse\<close>

lemma parse_validate_returns:
  assumes "k_cmd st = Some env"
    and "authType env = Some 1 \<longrightarrow> (\<exists>auth h. hmacAuth env = Some auth \<and> hmac auth = Some h)"
    and "k_message st = Some pb" and "length (toBuffer L pb) < 2 ^ 31"
  shows "fst (parse_validate L st data p c) \<in> {Inr SUCCESS, Inr DATA_ERROR, Inr HMAC_FAILURE}"
proof (cases "int (length (buffer_slice data (p + 9) (c + p + 9))) = c")
  case False
  then have "fst (parse_validate L st data p c) = Inr DATA_ERROR"
    using parse_validate_data_error [of L st data p c] by blast
  then show ?thesis by simp
next
  case chunk: True
  show ?thesis
  proof (cases "authType env = Some 1")
    case False
    from parse_validate_no_auth [OF chunk assms(1) this] show ?thesis by simp
  next
    case True
    with assms(2) obtain auth h where digest: "hmacAuth env = Some auth" "hmac auth = Some h"
      by blast
    from writeInt32BE_fits [OF assms(4)] obtain prefix
      where "writeInt32BE (int (length (toBuffer L pb))) = Inr prefix" by blast
    from parse_validate_hmac [OF chunk assms(1) True digest assms(3) this]
    show ?thesis by simp
  qed
qed

text \<open>
  C5 as stated does not hold. The three header fields are read with bounds-checked
  reads before anything else, so on a buffer of fewer than nine bytes \<open>parse\<close>
  throws a RangeError instead of returning a code: on the empty buffer, and on a
  valid frame cut after its eighth byte.
\<close>

theorem parse_short_buffer_counterexample:
  "fst (parse demoLib newKinetic []) = Inl RangeError
   \<and> length (take 8 demoFrame) = 8
   \<and> fst (parse demoLib demoSender (take 8 demoFrame)) = Inl RangeError"
  by (simp add: parse_short demoFrame_eq)

text \<open>
  C5, amended. On every buffer of at least nine bytes whose envelope region the
  decoder decodes or rejects without a structure, and whose decoded envelope, when
  its \<open>authType\<close> is HMAC, carries a digest, \<open>parse\<close> returns one of the codes
  \<open>SUCCESS\<close>, \<open>VERSION_FAILURE\<close>, \<open>DATA_ERROR\<close>, \<open>INTERNAL_ERROR\<close> and
  \<open>HMAC_FAILURE\<close> (the encodings being buffers, of fewer than \<open>2 ^ 31\<close> bytes).
  On a buffer of fewer than nine bytes the header reads throw a RangeError and the
  instance is unchanged. No read goes past the end of the buffer: the header reads
  are checked and the slices are clamped.
\<close>

theorem parse_returns_code:
  assumes "\<forall>pb. length (toBuffer L pb) < 2 ^ 31"
    and "9 \<le> length data" and "readInt32BE data 1 = Inr pbMsgLen"
    and "envelope = buffer_slice data 9 (9 + pbMsgLen)"
    and "\<forall>partial. decodeMessage L envelope \<noteq> DecodeFault (Some partial)"
    and "\<forall>env. decodeMessage L envelope = Decoded env \<and> authType env = Some 1 \<longrightarrow>
           (\<exists>auth h. hmacAuth env = Some auth \<and> hmac auth = Some h)"
  shows "fst (parse L st data)
           \<in> {Inr SUCCESS, Inr VERSION_FAILURE, Inr DATA_ERROR, Inr INTERNAL_ERROR, Inr HMAC_FAILURE}
       \<and> (\<forall>short. length short < 9 \<longrightarrow> parse L st short = (Inl RangeError, st))"
proof -
  from header_reads [OF assms(2)] assms(3) obtain chunkLen
    where reads: "readInt8 data 0 = Inr (sint (data ! 0))"
      "readInt32BE data 1 = Inr pbMsgLen" "readInt32BE data 5 = Inr chunkLen"
    by auto
  note unfold = parse_unfold [OF reads, of L st, folded assms(4)]
  have main: "fst (parse L st data)
           \<in> {Inr SUCCESS, Inr VERSION_FAILURE, Inr DATA_ERROR, Inr INTERNAL_ERROR, Inr HMAC_FAILURE}"
  proof (cases "sint (data ! 0) = getVersion")
    case False
    then show ?thesis by (simp add: unfold)
  next
    case version: True
    show ?thesis
    proof (cases "decodeMessage L envelope")
      case (DecodeFault partial)
      with assms(5) have "decodeMessage L envelope = DecodeFault None"
        by (cases partial) auto
      then show ?thesis using version by (simp add: unfold parse_decode_def)
    next
      case (Decoded env)
      with assms(6)
      have digest: "authType env = Some 1 \<longrightarrow> (\<exists>auth h. hmacAuth env = Some auth \<and> hmac auth = Some h)"
        by blast
      have valid: "fst (parse_validate L (setProtobuf (st\<lparr>k_cmd := Some env\<rparr>) (PbCommand c))
                    data pbMsgLen chunkLen)
            \<in> {Inr SUCCESS, Inr DATA_ERROR, Inr HMAC_FAILURE}" for c
        using assms(1) [rule_format, of "PbCommand c"]
        by (intro parse_validate_returns [OF _ digest, of _ "PbCommand c"])
           (simp_all add: setProtobuf_def)
      show ?thesis
      proof (cases "decodeCommand L (commandBytes env)")
        case (Decoded c)
        with \<open>decodeMessage L envelope = Decoded env\<close> version valid [of c]
        show ?thesis by (auto simp: unfold parse_decode_def)
      next
        case (DecodeFault partial)
        with \<open>decodeMessage L envelope = Decoded env\<close> version valid
        show ?thesis by (cases partial) (auto simp: unfold parse_decode_def)
      qed
    qed
  qed
  then show ?thesis by (simp add: parse_short)
qed

theorem parse_returns_code_witness:
  "fst (parse demoLib newKinetic demoFrame)
     \<in> {Inr SUCCESS, Inr VERSION_FAILURE, Inr DATA_ERROR, Inr INTERNAL_ERROR, Inr HMAC_FAILURE}
   \<and> parse demoLib newKinetic [0x46] = (Inl RangeError, newKinetic)"
proof -
  have fit: "\<forall>pb. length (toBuffer demoLib pb) < 2 ^ 31"
    by (simp add: toBuffer_def demoLib_def demoCommandBytes_def split: protobuf.splits)
  have len: "9 \<le> length demoFrame"
    by (simp add: demoFrame_eq)
  have env: "[1] = buffer_slice demoFrame 9 (9 + 1)"
    by (simp only: demoFrame_reads)
  have whole: "\<forall>partial. decodeMessage demoLib [1] \<noteq> DecodeFault (Some partial)"
    by (simp add: demoLib_def)
  have digest: "\<forall>env. decodeMessage demoLib [1] = Decoded env \<and> authType env = Some 1 \<longrightarrow>
           (\<exists>auth h. hmacAuth env = Some auth \<and> hmac auth = Some h)"
    by (simp add: demoLib_def demoEnvelope_def)
  from parse_returns_code [OF fit len demoFrame_reads(2) env whole digest, of newKinetic]
  show ?thesis by simp
qed


subsection \<open>Building an envelope and reading it back\<close>




lemma request_builders_setMessage:
  "\<exists>c. getLog L t st incrementTCP ts cv = setMessage L st c"
  "\<exists>c. flush L t st incrementTCP cv = setMessage L st c"
  "\<exists>c. setClusterVersion L t st incrementTCP cv old = setMessage L st c"
  "\<exists>c. noOp L t st incrementTCP cv = setMessage L st c"
  "\<exists>c. put L t st k incrementTCP dbv nv cv = setMessage L st c"
  "\<exists>c. get L t st k incrementTCP cv = setMessage L st c"
  "\<exists>c. delete L t st k incrementTCP cv dbv = setMessage L st c"
  unfolding getLog_def flush_def setClusterVersion_def noOp_def put_def get_def delete_def
  by blast+





subsection \<open>Responses echo the sequence of the request\<close>







end
